theory Spec2Isabelle
  imports Main "HOL-Library.Multiset" "HOL-Library.Product_Lexorder"
begin

section \<open>The data model of \<open>registration/models/job.py\<close>\<close>

text \<open>
  A calendar date is (year, month, day), a time of day is (hour, minute, second,
  microsecond) and a timestamp is a date with a time of day. Python compares
  dates and naive timestamps field by field, most significant first, which is the
  lexicographic order on these tuples. \<open>datetime.date()\<close> returns the date part.
\<close>

type_synonym date = "nat \<times> nat \<times> nat"
type_synonym time = "nat \<times> nat \<times> nat \<times> nat"
type_synonym datetime = "date \<times> time"

definition datetime_date :: "datetime \<Rightarrow> date" where
  "datetime_date dt = fst dt"

text \<open>
  An event: its primary key, its slug and the four flags that the code under
  verification reads. Two model instances are equal when their primary keys are.
\<close>

record event =
  event_pk :: nat
  url_name :: string
  active :: bool
  archived :: bool
  badges :: bool
  mail_validation :: bool

text \<open>
  A shift, as far as \<open>job.py\<close> uses it: its primary key, its \<open>begin\<close> timestamp
  (a non-null column, so every stored shift has one) and the primary keys of the
  helpers registered for it, one entry per row of the helper/shift association.
\<close>

record shift =
  shift_pk :: nat
  shift_begin :: datetime
  shift_helper_set :: "nat list"

text \<open>
  A job with its event, the rows of its \<open>coordinators\<close> association (primary keys
  of helpers), the nullable reference to its badge defaults, the frozen coordinator
  count and its shifts (the reverse accessor \<open>shift_set\<close>).
\<close>

record job =
  job_event :: event
  job_name :: string
  coordinators :: "nat list"
  badge_defaults :: "nat option"
  archived_number_coordinators :: int
  shift_set :: "shift list"

section \<open>\<open>Job.shifts_by_day\<close>\<close>

text \<open>
  Dictionaries are association lists with distinct keys, in insertion order.
  \<open>dict_contains\<close> is \<open>day in d\<close>, \<open>dict_setitem\<close> is \<open>d[day] = v\<close> (a new key goes
  last, an existing key keeps its place) and \<open>dict_append\<close> is \<open>d[day].append(s)\<close>
  for a key that is present.
\<close>

fun dict_contains :: "'k \<Rightarrow> ('k \<times> 'v) list \<Rightarrow> bool" where
  "dict_contains k [] = False"
| "dict_contains k (p # ps) = (if fst p = k then True else dict_contains k ps)"

fun dict_setitem :: "'k \<Rightarrow> 'v \<Rightarrow> ('k \<times> 'v) list \<Rightarrow> ('k \<times> 'v) list" where
  "dict_setitem k v [] = [(k, v)]"
| "dict_setitem k v (p # ps) =
     (if fst p = k then (k, v) # ps else p # dict_setitem k v ps)"

fun dict_append :: "'k \<Rightarrow> 'v \<Rightarrow> ('k \<times> 'v list) list \<Rightarrow> ('k \<times> 'v list) list" where
  "dict_append k x [] = []"
| "dict_append k x (p # ps) =
     (if fst p = k then (k, snd p @ [x]) # ps else p # dict_append k x ps)"

text \<open>
  \<open>d[day] = sorted(d[day], key=...)\<close> for a key of the dictionary: the entry is
  replaced in place.
\<close>

fun dict_sort_entry :: "('v \<Rightarrow> 'o::linorder) \<Rightarrow> 'k \<Rightarrow> ('k \<times> 'v list) list \<Rightarrow> ('k \<times> 'v list) list" where
  "dict_sort_entry key k [] = []"
| "dict_sort_entry key k (p # ps) =
     (if fst p = k then (k, sort_key key (snd p)) # ps
      else p # dict_sort_entry key k ps)"

text \<open>
  The first loop of \<open>shifts_by_day\<close>: every shift is appended to the list of its
  day, or starts that list.
\<close>

fun group_shifts :: "shift list \<Rightarrow> (date \<times> shift list) list \<Rightarrow> (date \<times> shift list) list" where
  "group_shifts [] tmp_shifts = tmp_shifts"
| "group_shifts (s # shifts) tmp_shifts =
     (let day = datetime_date (shift_begin s) in
      if dict_contains day tmp_shifts
      then group_shifts shifts (dict_append day s tmp_shifts)
      else group_shifts shifts (dict_setitem day [s] tmp_shifts))"

text \<open>
  The second loop: for every day of the ordered dictionary, its list is replaced
  by the list sorted by \<open>begin\<close>. Python's \<open>sorted\<close> is stable, as \<open>sort_key\<close> is.
\<close>

fun sort_days :: "date list \<Rightarrow> (date \<times> shift list) list \<Rightarrow> (date \<times> shift list) list" where
  "sort_days [] ordered_shifts = ordered_shifts"
| "sort_days (day # days) ordered_shifts =
     sort_days days (dict_sort_entry shift_begin day ordered_shifts)"

text \<open>
  The argument \<open>shifts\<close> is \<open>None\<close> (the default) or a list. \<open>not shifts\<close> holds for
  \<open>None\<close> and for the empty list; both take all shifts of the job. The result is
  the \<open>OrderedDict\<close>, as the list of its items in iteration order.
\<close>

definition shifts_by_day :: "job \<Rightarrow> shift list option \<Rightarrow> (date \<times> shift list) list" where
  "shifts_by_day self shifts =
     (let shifts' = (case shifts of
                       None \<Rightarrow> shift_set self
                     | Some l \<Rightarrow> (if l = [] then shift_set self else l));
          tmp_shifts = group_shifts shifts' [];
          ordered_shifts = sort_key fst tmp_shifts
      in sort_days (map fst ordered_shifts) ordered_shifts)"

text \<open>
  For the statements about \<open>shifts_by_day\<close>: the shifts of a list that begin on a
  given day, in the order of the list; the list that \<open>shifts_by_day\<close> works on;
  and the days of a list with their sorted shifts.
\<close>

definition bucket :: "date \<Rightarrow> shift list \<Rightarrow> shift list" where
  "bucket d ss = filter (\<lambda>s. datetime_date (shift_begin s) = d) ss"

definition day_buckets :: "shift list \<Rightarrow> (date \<times> shift list) list" where
  "day_buckets ss =
     map (\<lambda>(d, l). (d, sort_key shift_begin l)) (sort_key fst (group_shifts ss []))"

definition given_shifts :: "job \<Rightarrow> shift list option \<Rightarrow> shift list" where
  "given_shifts self shifts =
     (case shifts of None \<Rightarrow> shift_set self
      | Some l \<Rightarrow> if l = [] then shift_set self else l)"

section \<open>\<open>Job.num_coordinators\<close> and \<open>Job.helpers_and_coordinators\<close>\<close>

text \<open>
  \<open>coordinators.count()\<close> is the number of rows of the association of this job.
\<close>

definition num_coordinators :: "job \<Rightarrow> int" where
  "num_coordinators self =
     (if archived (job_event self) then archived_number_coordinators self
      else int (length (coordinators self)))"

text \<open>
  A query set is a query that is not evaluated yet: the rows that its joins and
  conditions select, as the primary keys of their helpers, and whether the query
  is \<open>SELECT DISTINCT\<close>. The joins give one row for every matching row of the
  association, so without \<open>DISTINCT\<close> a helper can appear several times.
  Evaluating the query set (\<open>qs_list\<close>) removes the repeated rows only when the
  query is distinct; the order of the rows is the database's and no property
  below depends on it.
\<close>

record queryset =
  qs_rows :: "nat list"
  qs_is_distinct :: bool

definition qs_list :: "queryset \<Rightarrow> nat list" where
  "qs_list qs = (if qs_is_distinct qs then remdups (qs_rows qs) else qs_rows qs)"

text \<open>
  \<open>Helper.objects.filter(shifts__job=self)\<close> joins helpers with the shifts of the
  job: one row for every registration of a helper for a shift of the job.
  \<open>self.coordinators\<close> has one row for every row of the coordinators association.
  Neither is distinct by itself.
\<close>

definition Helper_objects_filter_shifts_job :: "job \<Rightarrow> queryset" where
  "Helper_objects_filter_shifts_job self =
     \<lparr>qs_rows = concat (map shift_helper_set (shift_set self)), qs_is_distinct = False\<rparr>"

definition coordinators_manager :: "job \<Rightarrow> queryset" where
  "coordinators_manager self = \<lparr>qs_rows = coordinators self, qs_is_distinct = False\<rparr>"

text \<open>
  \<open>.distinct()\<close> marks the query as distinct.
\<close>

definition qs_distinct :: "queryset \<Rightarrow> queryset" where
  "qs_distinct qs = qs\<lparr>qs_is_distinct := True\<rparr>"

text \<open>
  \<open>a | b\<close> combines the two queries into one whose condition is the disjunction
  of theirs. Django refuses to combine a distinct query with one that is not
  (an \<open>AssertionError\<close>); otherwise the combined query is distinct exactly when
  the operands are, and by itself \<open>|\<close> removes no row. The combined joins select a
  helper at least once when one of the two conditions selects it; the model takes
  the rows of both operands.
\<close>

datatype qs_error = AssertionError

definition qs_or :: "queryset \<Rightarrow> queryset \<Rightarrow> qs_error + queryset" where
  "qs_or a b =
     (if qs_is_distinct a \<noteq> qs_is_distinct b then Inl AssertionError
      else Inr \<lparr>qs_rows = qs_rows a @ qs_rows b, qs_is_distinct = qs_is_distinct a\<rparr>)"

definition helpers_and_coordinators :: "job \<Rightarrow> qs_error + queryset" where
  "helpers_and_coordinators self =
     (let helpers = qs_distinct (Helper_objects_filter_shifts_job self);
          coordinators' = qs_distinct (coordinators_manager self)
      in qs_or helpers coordinators')"

section \<open>The signal handler \<open>job_pre_save\<close>\<close>

text \<open>
  Modelled from the spec: the model \<open>BadgeDefaults\<close> (\<open>badges/models.py\<close>) is not
  part of the sources. The spec has it as "an independent record with no fields
  relevant to this core beyond existing as an attachable unit", and the handler
  "creates a new, empty Badge Defaults record, persists it". The table is the list
  of the primary keys of its rows; saving a new record adds one row with a key
  that no row has.
\<close>

definition BadgeDefaults_save :: "nat list \<Rightarrow> nat \<times> nat list" where
  "BadgeDefaults_save rows = (let pk = Suc (fold max rows 0) in (pk, rows @ [pk]))"

text \<open>
  The handler gets the job instance that is about to be saved and may change it;
  the model returns the instance and the table of badge defaults. A model instance
  is truthy, so \<open>not instance.badge_defaults\<close> holds exactly for \<open>None\<close>.
\<close>

definition job_pre_save :: "job \<Rightarrow> nat list \<Rightarrow> job \<times> nat list" where
  "job_pre_save instance rows =
     (if badges (job_event instance) \<and> badge_defaults instance = None
      then (let (defaults, rows') = BadgeDefaults_save rows
            in (instance\<lparr>badge_defaults := Some defaults\<rparr>, rows'))
      else (instance, rows))"

text \<open>
  Saving a job \<open>n\<close> times in a row runs the handler before each save.
\<close>

fun save_times :: "nat \<Rightarrow> job \<times> nat list \<Rightarrow> job \<times> nat list" where
  "save_times 0 st = st"
| "save_times (Suc n) st = save_times n (job_pre_save (fst st) (snd st))"

section \<open>The views of \<open>registration/views/registration.py\<close>\<close>

text \<open>
  Exceptions are values. \<open>SMTPException\<close> stands for every instance of
  \<open>smtplib.SMTPException\<close> (its subclasses included, as \<open>except\<close> catches them),
  \<open>DoesNotExist\<close> for \<open>Link.DoesNotExist\<close>, and \<open>OtherException\<close> for an exception
  of any other class, by its name.
\<close>

datatype exn = Http404 | DoesNotExist | ValueError | SMTPException | OtherException string

record user =
  username :: string
  is_authenticated :: bool

record request =
  request_user :: user
  POST :: "(string \<times> string) list"

record helper =
  helper_pk :: nat
  email :: string
  validated :: bool

record link =
  link_event_id :: nat
  link_shifts :: "shift list"

text \<open>
  The form object, as the view constructs it: the bound data (or \<open>None\<close>), the
  event, the shifts of the link (or \<open>None\<close>) and the link flag.
\<close>

record register_form =
  form_data :: "(string \<times> string) list option"
  form_event :: event
  form_shifts :: "shift list option"
  form_link :: bool

datatype level = DEBUG | INFO | SUCCESS | WARNING | ERROR

text \<open>
  What a view reads and writes: the tables of events and helpers, and the messages
  recorded for the user of the request.
\<close>

record world =
  events :: "event list"
  helpers :: "helper list"
  messages :: "(level \<times> string) list"

text \<open>
  The collaborators of the views that are not part of the sources, as parameters:
  \<open>Event.is_involved\<close>, \<open>Link.objects.get\<close> (the link, or the exception it raises),
  \<open>RegisterForm.is_valid\<close>, the helper instance that \<open>RegisterForm.save\<close> creates,
  the outcome of \<open>Helper.send_mail\<close> (\<open>None\<close> when it returns, the exception when it
  raises) and, for \<open>get_or_404\<close>, which helpers belong to which event.
\<close>

record env =
  is_involved :: "event \<Rightarrow> user \<Rightarrow> bool"
  Link_objects_get :: "string \<Rightarrow> exn + link"
  form_is_valid :: "register_form \<Rightarrow> bool"
  form_new_helper :: "register_form \<Rightarrow> world \<Rightarrow> helper"
  send_mail :: "helper \<Rightarrow> request \<Rightarrow> exn option"
  helper_in_event :: "event \<Rightarrow> nat \<Rightarrow> bool"

datatype ctx_value = CtxEvent event | CtxForm register_form | CtxHelper helper | CtxBool bool

datatype url = Reverse string string nat

datatype response =
    Render string "(string \<times> ctx_value) list"
  | HttpResponseRedirect url
  | NoPermission

text \<open>
  \<open>get_object_or_404(Event, url_name=...)\<close>: the event with this slug, or the
  exception \<open>Http404\<close>.
\<close>

definition get_object_or_404_Event :: "world \<Rightarrow> string \<Rightarrow> exn + event" where
  "get_object_or_404_Event w event_url_name =
     (case find (\<lambda>e. url_name e = event_url_name) (events w) of
        None \<Rightarrow> Inl Http404
      | Some e \<Rightarrow> Inr e)"

text \<open>
  Modelled from the spec: \<open>nopermission\<close> (\<open>views/utils.py\<close>) is not part of the
  sources; the spec has it as "a permission-denial page renderer". Its response
  is the "no permission" page.
\<close>

definition nopermission :: "request \<Rightarrow> response" where
  "nopermission request = NoPermission"

text \<open>
  The first block of \<open>form\<close>, "get link if given". \<open>if link_pk\<close> holds for a
  non-empty string. The result is an early exit of the view (an exception or a
  response), or the link and the shifts for the rest of the view.
\<close>

definition resolve_link ::
  "env \<Rightarrow> event \<Rightarrow> string option \<Rightarrow> (exn + response) + (link option \<times> shift list option)" where
  "resolve_link env event link_pk =
     (case link_pk of
        None \<Rightarrow> Inr (None, None)
      | Some pk \<Rightarrow>
          if pk = [] then Inr (None, None)
          else (case Link_objects_get env pk of
                  Inl x \<Rightarrow>
                    if x = DoesNotExist \<or> x = ValueError
                    then Inl (Inr (Render ''registration/invalid_link.html''
                                     [(''event'', CtxEvent event)]))
                    else Inl (Inl x)
                | Inr l \<Rightarrow>
                    if link_event_id l \<noteq> event_pk event then Inl (Inl Http404)
                    else Inr (Some l, Some (link_shifts l))))"

text \<open>
  The second block, "check permission": the response of an early exit, or \<open>None\<close>
  when the view goes on. A model instance is truthy, so \<open>not link\<close> holds exactly
  for \<open>None\<close>.
\<close>

definition check_permission :: "env \<Rightarrow> request \<Rightarrow> event \<Rightarrow> link option \<Rightarrow> response option" where
  "check_permission env request event l =
     (if \<not> active event \<and> l = None then
        if \<not> is_authenticated (request_user request)
        then Some (Render ''registration/not_active.html'' [(''event'', CtxEvent event)])
        else if \<not> is_involved env event (request_user request)
        then Some (nopermission request)
        else None
      else None)"

text \<open>
  Modelled from the spec: \<open>RegisterForm\<close> (\<open>forms.py\<close>) is not part of the sources.
  Its \<open>save\<close> "saves exactly one new Helper record": the helper that the form
  creates becomes a row of the table.
\<close>

definition form_save :: "env \<Rightarrow> register_form \<Rightarrow> world \<Rightarrow> helper \<times> world" where
  "form_save env f w =
     (let h = form_new_helper env f w in (h, w\<lparr>helpers := helpers w @ [h]\<rparr>))"

text \<open>
  \<open>request.POST or None\<close>: an empty \<open>POST\<close> is falsy.
\<close>

definition RegisterForm ::
  "request \<Rightarrow> event \<Rightarrow> shift list option \<Rightarrow> link option \<Rightarrow> register_form" where
  "RegisterForm request event all_shifts l =
     \<lparr>form_data = (if POST request = [] then None else Some (POST request)),
      form_event = event, form_shifts = all_shifts, form_link = (l \<noteq> None)\<rparr>"

definition registered_redirect :: "event \<Rightarrow> helper \<Rightarrow> response" where
  "registered_redirect event h =
     HttpResponseRedirect (Reverse ''registered'' (url_name event) (helper_pk h))"

text \<open>
  The third block, "handle form". An exception of \<open>send_mail\<close> other than an
  \<open>SMTPException\<close> leaves the view; the helper is saved by then, and the view
  itself undoes nothing.
\<close>

definition handle_form ::
  "env \<Rightarrow> request \<Rightarrow> event \<Rightarrow> link option \<Rightarrow> shift list option \<Rightarrow> world
     \<Rightarrow> (exn + response) \<times> world" where
  "handle_form env request event l all_shifts w =
     (let f = RegisterForm request event all_shifts l in
      if form_is_valid env f then
        (let (h, w1) = form_save env f w in
         case send_mail env h request of
           None \<Rightarrow> (Inr (registered_redirect event h), w1)
         | Some x \<Rightarrow>
             if x = SMTPException
             then (Inr (registered_redirect event h),
                   w1\<lparr>messages := messages w1 @
                      [(ERROR, ''Sending the mail failed, but the registration was saved.'')]\<rparr>)
             else (Inl x, w1))
      else (Inr (Render ''registration/form.html''
                   [(''event'', CtxEvent event), (''form'', CtxForm f)]), w))"

definition form ::
  "env \<Rightarrow> request \<Rightarrow> string \<Rightarrow> string option \<Rightarrow> world \<Rightarrow> (exn + response) \<times> world" where
  "form env request event_url_name link_pk w =
     (case get_object_or_404_Event w event_url_name of
        Inl x \<Rightarrow> (Inl x, w)
      | Inr event \<Rightarrow>
          (case resolve_link env event link_pk of
             Inl r \<Rightarrow> (r, w)
           | Inr (l, all_shifts) \<Rightarrow>
               (case check_permission env request event l of
                  Some r \<Rightarrow> (Inr r, w)
                | None \<Rightarrow> handle_form env request event l all_shifts w)))"

text \<open>
  Modelled from the spec: \<open>get_or_404\<close> (\<open>views/utils.py\<close>) is not part of the
  sources. The spec has it as a lookup "raising a not-found signal on any broken
  link in the chain": "404 if the lookup fails (helper does not belong to this
  event, or does not exist)". The views below pass no job and no shift, so the
  result is the event and the helper.
\<close>

definition get_or_404 :: "env \<Rightarrow> world \<Rightarrow> string \<Rightarrow> nat \<Rightarrow> exn + (event \<times> helper)" where
  "get_or_404 env w event_url_name helper_id =
     (case get_object_or_404_Event w event_url_name of
        Inl x \<Rightarrow> Inl x
      | Inr event \<Rightarrow>
          (case find (\<lambda>h. helper_pk h = helper_id) (helpers w) of
             None \<Rightarrow> Inl Http404
           | Some h \<Rightarrow>
               if helper_in_event env event helper_id then Inr (event, h)
               else Inl Http404))"

text \<open>
  \<open>helper.save()\<close> for an instance that was loaded from the table: the row with its
  primary key is replaced; were there none, the instance would be inserted.
\<close>

definition Helper_save :: "helper \<Rightarrow> world \<Rightarrow> world" where
  "Helper_save h w =
     (if List.member (map helper_pk (helpers w)) (helper_pk h)
      then w\<lparr>helpers := map (\<lambda>r. if helper_pk r = helper_pk h then h else r) (helpers w)\<rparr>
      else w\<lparr>helpers := helpers w @ [h]\<rparr>)"

definition validate :: "env \<Rightarrow> request \<Rightarrow> string \<Rightarrow> nat \<Rightarrow> world \<Rightarrow> (exn + response) \<times> world" where
  "validate env request event_url_name helper_id w =
     (case get_or_404 env w event_url_name helper_id of
        Inl x \<Rightarrow> (Inl x, w)
      | Inr (event, h) \<Rightarrow>
          if \<not> mail_validation event then (Inl Http404, w)
          else (let already_validated = validated h;
                    h' = h\<lparr>validated := True\<rparr>;
                    w' = Helper_save h' w
                in (Inr (Render ''registration/validate.html''
                           [(''event'', CtxEvent event),
                            (''already_validated'', CtxBool already_validated)]), w')))"

section \<open>Example data\<close>

text \<open>
  Four shifts of one job on two days; \<open>shift_a\<close> and \<open>shift_c\<close> begin at the same
  time. \<open>job_empty\<close> is a job that has no shift yet.
\<close>

definition shift_a :: shift where
  "shift_a = \<lparr>shift_pk = 1, shift_begin = ((2016, 5, 2), (10, 0, 0, 0)), shift_helper_set = [7, 8]\<rparr>"
definition shift_b :: shift where
  "shift_b = \<lparr>shift_pk = 2, shift_begin = ((2016, 5, 1), (18, 30, 0, 0)), shift_helper_set = [7]\<rparr>"
definition shift_c :: shift where
  "shift_c = \<lparr>shift_pk = 3, shift_begin = ((2016, 5, 2), (10, 0, 0, 0)), shift_helper_set = []\<rparr>"
definition shift_d :: shift where
  "shift_d = \<lparr>shift_pk = 4, shift_begin = ((2016, 5, 2), (8, 0, 0, 0)), shift_helper_set = [9]\<rparr>"

definition event_a :: event where
  "event_a = \<lparr>event_pk = 1, url_name = ''fest'', active = True, archived = False, badges = True, mail_validation = True\<rparr>"

definition job_a :: job where
  "job_a = \<lparr>job_event = event_a, job_name = ''Bierstand'', coordinators = [8, 5],
             badge_defaults = None, archived_number_coordinators = 0,
             shift_set = [shift_a, shift_b, shift_c, shift_d]\<rparr>"

definition job_empty :: job where
  "job_empty = job_a\<lparr>shift_set := []\<rparr>"

definition job_archived :: job where
  "job_archived = job_a\<lparr>job_event := event_a\<lparr>archived := True\<rparr>, archived_number_coordinators := 3\<rparr>"

definition job_nobadges :: job where
  "job_nobadges = job_a\<lparr>job_event := event_a\<lparr>badges := False\<rparr>\<rparr>"

text \<open>
  For the views: a second event that is not active and does not use mail
  validation, a link of each event, a helper in the table and the helper that a
  valid form creates, an anonymous and an authenticated user who is involved in
  no event, a request with form data, and collaborators that know the links
  \<open>abc\<close> and \<open>xyz\<close>, take \<open>%\<close> for malformed, accept every bound form and send the
  mail with the given outcome.
\<close>

definition event_closed :: event where
  "event_closed = \<lparr>event_pk = 2, url_name = ''old'', active = False, archived = False,
                    badges = False, mail_validation = False\<rparr>"

definition link_a :: link where
  "link_a = \<lparr>link_event_id = 1, link_shifts = [shift_a]\<rparr>"

definition link_other :: link where
  "link_other = \<lparr>link_event_id = 2, link_shifts = []\<rparr>"

definition helper_old :: helper where
  "helper_old = \<lparr>helper_pk = 7, email = ''old@example.org'', validated = False\<rparr>"

definition helper_new :: helper where
  "helper_new = \<lparr>helper_pk = 12, email = ''new@example.org'', validated = False\<rparr>"

definition world_a :: world where
  "world_a = \<lparr>events = [event_a, event_closed], helpers = [helper_old], messages = []\<rparr>"

definition user_anonymous :: user where
  "user_anonymous = \<lparr>username = [], is_authenticated = False\<rparr>"

definition user_b :: user where
  "user_b = \<lparr>username = ''bob'', is_authenticated = True\<rparr>"

definition request_post :: "user \<Rightarrow> request" where
  "request_post u = \<lparr>request_user = u, POST = [(''email'', ''new@example.org'')]\<rparr>"

definition env_a :: "exn option \<Rightarrow> env" where
  "env_a mail =
     \<lparr>is_involved = (\<lambda>e u. False),
      Link_objects_get = (\<lambda>pk. if pk = ''abc'' then Inr link_a
                                else if pk = ''xyz'' then Inr link_other
                                else if pk = ''%'' then Inl ValueError
                                else Inl DoesNotExist),
      form_is_valid = (\<lambda>f. form_data f \<noteq> None),
      form_new_helper = (\<lambda>f w. helper_new),
      send_mail = (\<lambda>h r. mail),
      helper_in_event = (\<lambda>e pk. True)\<rparr>"

section \<open>Properties of \<open>shifts_by_day\<close>\<close>

subsection \<open>The dictionary operations\<close>

lemma dict_contains_iff: "dict_contains k d \<longleftrightarrow> k \<in> fst ` set d"
  by (induction d) auto

lemma keys_dict_setitem:
  "map fst (dict_setitem k v d) = (if k \<in> fst ` set d then map fst d else map fst d @ [k])"
  by (induction d) auto

lemma keys_dict_append: "map fst (dict_append k x d) = map fst d"
  by (induction d) auto

lemma keys_dict_sort_entry: "map fst (dict_sort_entry f k d) = map fst d"
  by (induction d) auto

lemma map_of_dict_setitem: "map_of (dict_setitem k v d) = (map_of d)(k \<mapsto> v)"
  by (induction d) (auto simp: fun_eq_iff)

lemma map_of_dict_append:
  "map_of (dict_append k x d) =
     (case map_of d k of None \<Rightarrow> map_of d | Some l \<Rightarrow> (map_of d)(k \<mapsto> l @ [x]))"
  by (induction d) (auto simp: fun_eq_iff split: option.splits)

lemma distinct_group_shifts:
  "distinct (map fst tmp) \<Longrightarrow> distinct (map fst (group_shifts ss tmp))"
  by (induction ss arbitrary: tmp)
     (auto simp: Let_def keys_dict_append keys_dict_setitem dict_contains_iff)

lemma bucket_Cons:
  "bucket d (s # ss) = (if datetime_date (shift_begin s) = d then s # bucket d ss else bucket d ss)"
  by (simp add: bucket_def)

lemma map_of_group_shifts:
  "map_of (group_shifts ss tmp) d =
     (case map_of tmp d of
        Some l \<Rightarrow> Some (l @ bucket d ss)
      | None \<Rightarrow> if bucket d ss = [] then None else Some (bucket d ss))"
proof (induction ss arbitrary: tmp)
  case Nil
  then show ?case by (simp add: bucket_def split: option.splits)
next
  case (Cons s ss)
  let ?day = "datetime_date (shift_begin s)"
  show ?case
  proof (cases "dict_contains ?day tmp")
    case True
    then have "map_of tmp ?day \<noteq> None"
      by (simp add: dict_contains_iff map_of_eq_None_iff)
    then obtain l0 where l0: "map_of tmp ?day = Some l0"
      by auto
    have eq: "group_shifts (s # ss) tmp = group_shifts ss (dict_append ?day s tmp)"
      using True by simp
    have m: "map_of (dict_append ?day s tmp) = (map_of tmp)(?day \<mapsto> l0 @ [s])"
      by (simp add: map_of_dict_append l0)
    show ?thesis
      unfolding eq Cons.IH m using l0
      by (cases "d = ?day") (auto simp: bucket_Cons split: option.splits)
  next
    case False
    then have l0: "map_of tmp ?day = None"
      by (simp add: dict_contains_iff map_of_eq_None_iff)
    have eq: "group_shifts (s # ss) tmp = group_shifts ss (dict_setitem ?day [s] tmp)"
      using False by simp
    show ?thesis
      unfolding eq Cons.IH map_of_dict_setitem using l0
      by (cases "d = ?day") (auto simp: bucket_Cons split: option.splits)
  qed
qed

lemma mset_concat_dict_setitem:
  "k \<notin> fst ` set d \<Longrightarrow> mset (concat (map snd (dict_setitem k v d))) = mset (concat (map snd d)) + mset v"
  by (induction d) auto

lemma mset_concat_dict_append:
  "k \<in> fst ` set d \<Longrightarrow> mset (concat (map snd (dict_append k x d))) = mset (concat (map snd d)) + {#x#}"
  by (induction d) auto

lemma mset_concat_group_shifts:
  "mset (concat (map snd (group_shifts ss tmp))) = mset (concat (map snd tmp)) + mset ss"
  by (induction ss arbitrary: tmp)
     (auto simp: Let_def dict_contains_iff mset_concat_dict_setitem mset_concat_dict_append)

lemma sort_days_eq:
  "distinct (map fst (pre @ post)) \<Longrightarrow>
   sort_days (map fst post) (pre @ post) = pre @ map (\<lambda>(d, l). (d, sort_key shift_begin l)) post"
proof (induction post arbitrary: pre)
  case Nil
  then show ?case by simp
next
  case (Cons p post)
  obtain d l where p: "p = (d, l)" by (cases p)
  have notin: "d \<notin> fst ` set pre" using Cons.prems p by auto
  have step: "dict_sort_entry shift_begin d (pre @ (d, l) # post) = (pre @ [(d, sort_key shift_begin l)]) @ post"
    using notin by (induction pre) auto
  have dist: "distinct (map fst ((pre @ [(d, sort_key shift_begin l)]) @ post))"
    using Cons.prems p by auto
  show ?case
    using Cons.IH[OF dist] step p by simp
qed

lemma distinct_keys_sorted_groups:
  "distinct (map fst (sort_key fst (group_shifts ss [])))"
proof -
  have "mset (map fst (sort_key fst (group_shifts ss []))) = mset (map fst (group_shifts ss []))"
    by simp
  moreover have "distinct (map fst (group_shifts ss []))"
    by (rule distinct_group_shifts) simp
  ultimately show ?thesis
    using mset_eq_imp_distinct_iff by blast
qed

lemma shifts_by_day_eq: "shifts_by_day self shifts = day_buckets (given_shifts self shifts)"
proof -
  have "sort_days (map fst xs) ([] @ xs) = [] @ map (\<lambda>(d, l). (d, sort_key shift_begin l)) xs"
    if "distinct (map fst ([] @ xs))" for xs
    using that by (rule sort_days_eq)
  then show ?thesis
    using distinct_keys_sorted_groups
    by (simp add: shifts_by_day_def day_buckets_def given_shifts_def Let_def)
qed

lemma keys_day_buckets: "map fst (day_buckets ss) = map fst (sort_key fst (group_shifts ss []))"
  by (simp add: day_buckets_def case_prod_unfold comp_def)

lemma map_of_groups: "map_of (group_shifts ss []) d = (if bucket d ss = [] then None else Some (bucket d ss))"
  by (simp add: map_of_group_shifts)

lemma set_keys_groups: "fst ` set (group_shifts ss []) = datetime_date ` shift_begin ` set ss"
proof -
  have "d \<in> fst ` set (group_shifts ss []) \<longleftrightarrow> d \<in> datetime_date ` shift_begin ` set ss" for d
  proof -
    have "d \<in> fst ` set (group_shifts ss []) \<longleftrightarrow> map_of (group_shifts ss []) d \<noteq> None"
      by (simp add: map_of_eq_None_iff)
    also have "\<dots> \<longleftrightarrow> bucket d ss \<noteq> []"
      by (simp add: map_of_groups)
    also have "\<dots> \<longleftrightarrow> d \<in> datetime_date ` shift_begin ` set ss"
      by (auto simp: bucket_def filter_empty_conv)
    finally show ?thesis .
  qed
  then show ?thesis by blast
qed

lemma day_buckets_keys: "fst ` set (day_buckets ss) = datetime_date ` shift_begin ` set ss"
proof -
  have "fst ` set (day_buckets ss) = set (map fst (day_buckets ss))" by simp
  also have "\<dots> = fst ` set (group_shifts ss [])"
    unfolding keys_day_buckets by simp
  finally show ?thesis by (simp add: set_keys_groups)
qed

lemma day_buckets_ascending: "sorted_wrt (<) (map fst (day_buckets ss))"
  unfolding keys_day_buckets strict_sorted_iff
  using distinct_keys_sorted_groups sorted_sort_key by blast

lemma day_buckets_entry:
  assumes "(d, l) \<in> set (day_buckets ss)"
  shows "l = sort_key shift_begin (bucket d ss)"
proof -
  from assms obtain l0 where l0: "(d, l0) \<in> set (group_shifts ss [])" and l: "l = sort_key shift_begin l0"
    by (auto simp: day_buckets_def)
  have "distinct (map fst (group_shifts ss []))"
    by (rule distinct_group_shifts) simp
  with l0 have "map_of (group_shifts ss []) d = Some l0"
    by simp
  then have "l0 = bucket d ss"
    by (simp add: map_of_groups split: if_splits)
  with l show ?thesis by simp
qed

lemma mset_concat_perm:
  "mset xs = mset ys \<Longrightarrow> mset (concat (map snd xs)) = mset (concat (map snd ys))"
proof -
  assume "mset xs = mset ys"
  then have "mset (map (\<lambda>p. mset (snd p)) xs) = mset (map (\<lambda>p. mset (snd p)) ys)"
    by simp
  then have "sum_mset (mset (map (\<lambda>p. mset (snd p)) xs)) = sum_mset (mset (map (\<lambda>p. mset (snd p)) ys))"
    by (rule arg_cong)
  then show ?thesis
    by (simp add: mset_concat sum_mset_sum_list comp_def del: mset_map)
qed

lemma mset_concat_sorted_entries:
  "mset (concat (map snd (map (\<lambda>(d, l). (d, sort_key f l)) xs))) = mset (concat (map snd xs))"
  by (induction xs) auto

lemma day_buckets_mset: "mset (concat (map snd (day_buckets ss))) = mset ss"
proof -
  have "mset (concat (map snd (day_buckets ss))) = mset (concat (map snd (sort_key fst (group_shifts ss []))))"
    unfolding day_buckets_def by (rule mset_concat_sorted_entries)
  also have "\<dots> = mset (concat (map snd (group_shifts ss [])))"
    by (rule mset_concat_perm) simp
  also have "\<dots> = mset ss"
    by (simp add: mset_concat_group_shifts)
  finally show ?thesis .
qed

text \<open>
  C1 (as amended). For every non-empty list of shifts (and for the empty list when
  the job has no shift), \<open>shifts_by_day\<close> returns an ordered mapping whose keys are
  exactly the calendar dates of the \<open>begin\<close> values of the shifts, in strictly
  ascending order; the buckets together hold every shift exactly as often as the
  input does; every shift is in the bucket of its own date; every bucket is in
  ascending \<open>begin\<close> order; and shifts with the same \<open>begin\<close> keep the order they
  have in the input.
\<close>

theorem shifts_by_day_groups:
  assumes "shifts \<noteq> [] \<or> shift_set self = []"
  shows "fst ` set (shifts_by_day self (Some shifts)) = datetime_date ` shift_begin ` set shifts
       \<and> sorted_wrt (<) (map fst (shifts_by_day self (Some shifts)))
       \<and> mset (concat (map snd (shifts_by_day self (Some shifts)))) = mset shifts
       \<and> (\<forall>(d, l) \<in> set (shifts_by_day self (Some shifts)).
            (\<forall>s \<in> set l. datetime_date (shift_begin s) = d)
          \<and> sorted (map shift_begin l)
          \<and> (\<forall>t. filter (\<lambda>s. shift_begin s = t) l
                 = filter (\<lambda>s. shift_begin s = t \<and> datetime_date (shift_begin s) = d) shifts))"
proof -
  have g: "given_shifts self (Some shifts) = shifts"
    using assms by (auto simp: given_shifts_def)
  have eq: "shifts_by_day self (Some shifts) = day_buckets shifts"
    by (simp add: shifts_by_day_eq g)
  have entry: "(\<forall>s \<in> set l. datetime_date (shift_begin s) = d)
          \<and> sorted (map shift_begin l)
          \<and> (\<forall>t. filter (\<lambda>s. shift_begin s = t) l
                 = filter (\<lambda>s. shift_begin s = t \<and> datetime_date (shift_begin s) = d) shifts)"
    if "(d, l) \<in> set (day_buckets shifts)" for d l
  proof -
    have l: "l = sort_key shift_begin (bucket d shifts)"
      using that by (rule day_buckets_entry)
    have "filter (\<lambda>s. shift_begin s = t) l
            = filter (\<lambda>s. shift_begin s = t \<and> datetime_date (shift_begin s) = d) shifts" for t
    proof -
      have "filter (\<lambda>s. shift_begin s = t) l = filter (\<lambda>s. shift_begin s = t) (bucket d shifts)"
        unfolding l by (rule sort_key_stable)
      then show ?thesis
        by (simp add: bucket_def conj_commute)
    qed
    moreover have "\<forall>s \<in> set l. datetime_date (shift_begin s) = d"
      by (simp add: l bucket_def)
    moreover have "sorted (map shift_begin l)"
      unfolding l by (rule sorted_sort_key)
    ultimately show ?thesis by blast
  qed
  show ?thesis
    unfolding eq
    using day_buckets_keys [of shifts] day_buckets_ascending [of shifts]
      day_buckets_mset [of shifts] entry
    by blast
qed

theorem shifts_by_day_groups_witness:
  "[shift_a, shift_b, shift_c, shift_d] \<noteq> []
   \<and> shifts_by_day job_a (Some [shift_a, shift_b, shift_c, shift_d])
       = [((2016, 5, 1), [shift_b]), ((2016, 5, 2), [shift_d, shift_a, shift_c])]
   \<and> mset (concat (map snd (shifts_by_day job_a (Some [shift_a, shift_b, shift_c, shift_d]))))
       = mset [shift_a, shift_b, shift_c, shift_d]"
proof -
  have h: "[shift_a, shift_b, shift_c, shift_d] \<noteq> [] \<or> shift_set job_a = []"
    by simp
  have v: "shifts_by_day job_a (Some [shift_a, shift_b, shift_c, shift_d])
             = [((2016, 5, 1), [shift_b]), ((2016, 5, 2), [shift_d, shift_a, shift_c])]"
    by (simp add: shifts_by_day_def Let_def shift_a_def shift_b_def shift_c_def shift_d_def
        datetime_date_def)
  from shifts_by_day_groups [OF h]
  have "mset (concat (map snd (shifts_by_day job_a (Some [shift_a, shift_b, shift_c, shift_d]))))
          = mset [shift_a, shift_b, shift_c, shift_d]"
    by blast
  with h v show ?thesis by blast
qed

text \<open>
  C1 as stated fails for the empty list: the job \<open>job_a\<close> has four shifts, and with
  the empty list as argument the result has the two days of these shifts as keys,
  not the (empty) set of days of the argument.
\<close>

theorem shifts_by_day_empty_argument_counterexample:
  "\<not> (fst ` set (shifts_by_day job_a (Some [])) = datetime_date ` shift_begin ` set [])"
  by (simp add: shifts_by_day_def Let_def job_a_def shift_a_def shift_b_def shift_c_def shift_d_def datetime_date_def)

text \<open>
  C9 (as amended). With the empty list as argument, \<open>shifts_by_day\<close> returns what it
  returns without an argument, which is its result for the list of all shifts of
  the job; this result is the empty mapping exactly when the job has no shift.
\<close>

theorem shifts_by_day_fallback:
  "shifts_by_day self (Some []) = shifts_by_day self None
   \<and> shifts_by_day self (Some []) = shifts_by_day self (Some (shift_set self))
   \<and> (shifts_by_day self (Some []) = [] \<longleftrightarrow> shift_set self = [])"
proof -
  have a: "shifts_by_day self (Some []) = shifts_by_day self None"
    by (simp add: shifts_by_day_def)
  have b: "shifts_by_day self (Some []) = shifts_by_day self (Some (shift_set self))"
    by (simp add: shifts_by_day_def)
  have "fst ` set (shifts_by_day self (Some [])) = datetime_date ` shift_begin ` set (shift_set self)"
    by (simp add: shifts_by_day_eq given_shifts_def day_buckets_keys)
  then have c: "shifts_by_day self (Some []) = [] \<longleftrightarrow> shift_set self = []"
    by (metis image_is_empty set_empty)
  from a b c show ?thesis by blast
qed

theorem shifts_by_day_fallback_witness:
  "shifts_by_day job_a (Some []) = shifts_by_day job_a None
   \<and> shifts_by_day job_a (Some []) \<noteq> []
   \<and> shift_set job_a \<noteq> []"
proof -
  have "shift_set job_a \<noteq> []"
    by (simp add: job_a_def)
  with shifts_by_day_fallback [of job_a] show ?thesis by blast
qed

text \<open>
  C9 as stated fails for a job without shifts: the fallback takes all shifts of
  the job, there are none, and the result is the empty mapping.
\<close>

theorem shifts_by_day_no_shifts_counterexample:
  "shifts_by_day job_empty (Some []) = []"
  by (simp add: shifts_by_day_def job_empty_def)

section \<open>Properties of the coordinator functions and of \<open>job_pre_save\<close>\<close>

text \<open>
  C7. For every job, \<open>num_coordinators\<close> is the number of rows of the coordinators
  association when the event of the job is not archived, and the stored
  \<open>archived_number_coordinators\<close> when it is archived; then the value stays the
  same whatever the coordinators association is changed to.
\<close>

theorem num_coordinators_live_or_frozen:
  "(\<not> archived (job_event self) \<longrightarrow> num_coordinators self = int (length (coordinators self)))
   \<and> (archived (job_event self) \<longrightarrow>
        num_coordinators self = archived_number_coordinators self
      \<and> num_coordinators (self\<lparr>coordinators := cs\<rparr>) = num_coordinators self)"
  by (simp add: num_coordinators_def)

theorem num_coordinators_live_or_frozen_witness:
  "\<not> archived (job_event job_a) \<and> num_coordinators job_a = 2
   \<and> archived (job_event job_archived) \<and> num_coordinators job_archived = 3
   \<and> num_coordinators (job_archived\<lparr>coordinators := [8, 5, 9]\<rparr>) = 3
   \<and> num_coordinators (job_archived\<lparr>coordinators := []\<rparr>) = 3"
proof -
  have a: "\<not> archived (job_event job_a)" "coordinators job_a = [8, 5]"
    by (simp_all add: job_a_def event_a_def)
  have b: "archived (job_event job_archived)" "archived_number_coordinators job_archived = 3"
    by (simp_all add: job_archived_def)
  from a num_coordinators_live_or_frozen [of job_a] have 1: "num_coordinators job_a = 2"
    by simp
  from b num_coordinators_live_or_frozen [of job_archived "[8, 5, 9]"]
  have 2: "num_coordinators job_archived = 3"
    "num_coordinators (job_archived\<lparr>coordinators := [8, 5, 9]\<rparr>) = 3"
    by simp_all
  from b num_coordinators_live_or_frozen [of job_archived "[]"]
  have 3: "num_coordinators (job_archived\<lparr>coordinators := []\<rparr>) = 3"
    by simp
  from a b 1 2 3 show ?thesis by blast
qed

lemma count_list_remdups: "count_list (remdups xs) x = (if x \<in> set xs then 1 else 0)"
  by (induction xs) auto

lemma joined_rows_repeat_helpers:
  "count_list (qs_list (Helper_objects_filter_shifts_job job_a)) 7 = 2"
  by (simp add: qs_list_def Helper_objects_filter_shifts_job_def job_a_def shift_a_def
      shift_b_def shift_c_def shift_d_def)

text \<open>
  C8. For every job, \<open>helpers_and_coordinators\<close> returns a query set (the two
  operands are both distinct, so \<open>|\<close> accepts them) whose rows are the union of the
  helpers registered for at least one shift of the job and the coordinators of
  the job: every such helper is in the result exactly once, whether the helper is
  a coordinator, has one shift, several shifts, or both; no other helper is in
  it. The rows are not repeated because the operands are made distinct.
\<close>

theorem helpers_and_coordinators_union:
  "\<exists>qs. helpers_and_coordinators self = Inr qs
     \<and> qs_is_distinct qs
     \<and> qs_rows qs = concat (map shift_helper_set (shift_set self)) @ coordinators self
     \<and> set (qs_list qs)
         = (\<Union>s \<in> set (shift_set self). set (shift_helper_set s)) \<union> set (coordinators self)
     \<and> distinct (qs_list qs)
     \<and> (\<forall>h. count_list (qs_list qs) h
            = (if h \<in> (\<Union>s \<in> set (shift_set self). set (shift_helper_set s))
                       \<union> set (coordinators self)
               then 1 else 0))"
proof -
  let ?qs = "\<lparr>qs_rows = concat (map shift_helper_set (shift_set self)) @ coordinators self,
              qs_is_distinct = True\<rparr>"
  have r: "helpers_and_coordinators self = Inr ?qs"
    by (simp add: helpers_and_coordinators_def qs_or_def qs_distinct_def
        Helper_objects_filter_shifts_job_def coordinators_manager_def)
  have l: "qs_list ?qs = remdups (concat (map shift_helper_set (shift_set self)) @ coordinators self)"
    by (simp add: qs_list_def)
  have s: "set (qs_list ?qs)
     = (\<Union>s \<in> set (shift_set self). set (shift_helper_set s)) \<union> set (coordinators self)"
    unfolding l by simp
  have d: "distinct (qs_list ?qs)"
    unfolding l by simp
  have c: "count_list (qs_list ?qs) h = (if h \<in> set (qs_list ?qs) then 1 else 0)" for h
    unfolding l by (simp add: count_list_remdups)
  have "qs_is_distinct ?qs
     \<and> qs_rows ?qs = concat (map shift_helper_set (shift_set self)) @ coordinators self
     \<and> set (qs_list ?qs)
         = (\<Union>s \<in> set (shift_set self). set (shift_helper_set s)) \<union> set (coordinators self)
     \<and> distinct (qs_list ?qs)
     \<and> (\<forall>h. count_list (qs_list ?qs) h
            = (if h \<in> (\<Union>s \<in> set (shift_set self). set (shift_helper_set s))
                       \<union> set (coordinators self)
               then 1 else 0))"
    using s d c by simp
  with r show ?thesis by blast
qed

theorem helpers_and_coordinators_union_witness:
  "\<exists>qs. helpers_and_coordinators job_a = Inr qs
     \<and> qs_rows qs = [7, 8, 7, 9, 8, 5]
     \<and> set (qs_list qs) = {5, 7, 8, 9}
     \<and> count_list (qs_list qs) 7 = 1
     \<and> count_list (qs_list qs) 8 = 1
     \<and> length (qs_list qs) = 4"
proof -
  have u: "(\<Union>s \<in> set (shift_set job_a). set (shift_helper_set s)) \<union> set (coordinators job_a)
             = {5, 7, 8, 9}"
    by (auto simp: job_a_def shift_a_def shift_b_def shift_c_def shift_d_def)
  have rows: "concat (map shift_helper_set (shift_set job_a)) @ coordinators job_a
                = [7, 8, 7, 9, 8, 5]"
    by (simp add: job_a_def shift_a_def shift_b_def shift_c_def shift_d_def)
  from helpers_and_coordinators_union [of job_a] obtain qs where
    qs: "helpers_and_coordinators job_a = Inr qs" "qs_is_distinct qs"
      "qs_rows qs = [7, 8, 7, 9, 8, 5]"
      "set (qs_list qs) = {5, 7, 8, 9}"
      "\<forall>h. count_list (qs_list qs) h = (if h \<in> {5, 7, 8, 9} then 1 else 0)"
    unfolding u rows by blast
  have len: "length (qs_list qs) = 4"
    using qs(2,3) by (simp add: qs_list_def)
  have "count_list (qs_list qs) 7 = 1" "count_list (qs_list qs) 8 = 1"
    using qs(5) by simp_all
  with qs len show ?thesis by blast
qed

lemma fold_max_ge: "x \<in> set rows \<Longrightarrow> x \<le> fold max rows (a::nat)"
proof (induction rows arbitrary: a)
  case Nil
  then show ?case by simp
next
  case (Cons r rows)
  have mono: "a \<le> fold max rows a" for a :: nat
    by (induction rows arbitrary: a) (auto intro: order_trans [OF max.cobounded2])
  show ?case
  proof (cases "x = r")
    case True
    have "r \<le> max r a" by simp
    also have "\<dots> \<le> fold max rows (max r a)" by (rule mono)
    finally show ?thesis using True by simp
  next
    case False
    with Cons.prems have "x \<in> set rows" by simp
    then show ?thesis using Cons.IH by simp
  qed
qed

lemma BadgeDefaults_save_fresh: "fst (BadgeDefaults_save rows) \<notin> set rows"
proof
  assume "fst (BadgeDefaults_save rows) \<in> set rows"
  then have "Suc (fold max rows 0) \<le> fold max rows 0"
    unfolding BadgeDefaults_save_def Let_def fst_conv by (rule fold_max_ge)
  then show False by simp
qed

lemma job_pre_save_twice:
  "job_pre_save (fst (job_pre_save j rows)) (snd (job_pre_save j rows)) = job_pre_save j rows"
  by (simp add: job_pre_save_def BadgeDefaults_save_def Let_def)

lemma job_pre_save_fixed:
  "\<not> badges (job_event j) \<or> badge_defaults j \<noteq> None \<Longrightarrow> job_pre_save j rows = (j, rows)"
  by (auto simp: job_pre_save_def)

lemma save_times_fixed:
  "\<not> badges (job_event j) \<or> badge_defaults j \<noteq> None \<Longrightarrow> save_times n (j, rows) = (j, rows)"
  by (induction n) (simp_all add: job_pre_save_fixed)

lemma save_times_Suc: "save_times (Suc n) (j, rows) = job_pre_save j rows"
proof (cases "badges (job_event j) \<and> badge_defaults j = None")
  case True
  obtain j' rows' where r: "job_pre_save j rows = (j', rows')"
    by (cases "job_pre_save j rows")
  with True have "badge_defaults j' \<noteq> None"
    by (auto simp: job_pre_save_def BadgeDefaults_save_def Let_def)
  then have "save_times n (j', rows') = (j', rows')"
    by (simp add: save_times_fixed)
  with r show ?thesis by simp
next
  case False
  then have f: "\<not> badges (job_event j) \<or> badge_defaults j \<noteq> None" by simp
  then show ?thesis
    by (simp add: job_pre_save_fixed save_times_fixed)
qed

text \<open>
  C5. When the event has badges and the job has no badge defaults, the handler
  saves exactly one new badge defaults record, with a key that no record had, and
  attaches it to the job. When the job has badge defaults, the handler creates no
  record and leaves the job as it is. When the event has no badges, no number of
  saves creates a record. Saving any job again, any number of times, gives what
  the first save gave.
\<close>

theorem job_pre_save_badge_defaults:
  "(badges (job_event j) \<and> badge_defaults j = None \<longrightarrow>
      (\<exists>pk. pk \<notin> set rows \<and> job_pre_save j rows = (j\<lparr>badge_defaults := Some pk\<rparr>, rows @ [pk])))
   \<and> (badge_defaults j \<noteq> None \<longrightarrow> job_pre_save j rows = (j, rows))
   \<and> (\<not> badges (job_event j) \<longrightarrow> save_times n (j, rows) = (j, rows))
   \<and> save_times (Suc n) (j, rows) = job_pre_save j rows"
proof -
  have a: "\<exists>pk. pk \<notin> set rows \<and> job_pre_save j rows = (j\<lparr>badge_defaults := Some pk\<rparr>, rows @ [pk])"
    if "badges (job_event j) \<and> badge_defaults j = None"
  proof -
    have "job_pre_save j rows
            = (j\<lparr>badge_defaults := Some (fst (BadgeDefaults_save rows))\<rparr>,
               rows @ [fst (BadgeDefaults_save rows)])"
      using that by (simp add: job_pre_save_def BadgeDefaults_save_def Let_def)
    with BadgeDefaults_save_fresh [of rows] show ?thesis by blast
  qed
  have b: "job_pre_save j rows = (j, rows)" if "badge_defaults j \<noteq> None"
    using that by (simp add: job_pre_save_fixed)
  have c: "save_times n (j, rows) = (j, rows)" if "\<not> badges (job_event j)"
    using that by (simp add: save_times_fixed)
  from a b c save_times_Suc [of n j rows] show ?thesis by blast
qed

theorem job_pre_save_badge_defaults_witness:
  "badges (job_event job_a) \<and> badge_defaults job_a = None
   \<and> job_pre_save job_a [1, 2] = (job_a\<lparr>badge_defaults := Some 3\<rparr>, [1, 2, 3])
   \<and> save_times 3 (job_a, [1, 2]) = (job_a\<lparr>badge_defaults := Some 3\<rparr>, [1, 2, 3])
   \<and> job_pre_save (job_a\<lparr>badge_defaults := Some 3\<rparr>) [1, 2, 3]
       = (job_a\<lparr>badge_defaults := Some 3\<rparr>, [1, 2, 3])
   \<and> \<not> badges (job_event job_nobadges)
   \<and> save_times 3 (job_nobadges, [1, 2]) = (job_nobadges, [1, 2])"
proof -
  have a: "badges (job_event job_a) \<and> badge_defaults job_a = None"
    by (simp add: job_a_def event_a_def)
  have v: "job_pre_save job_a [1, 2] = (job_a\<lparr>badge_defaults := Some 3\<rparr>, [1, 2, 3])"
    using a by (simp add: job_pre_save_def BadgeDefaults_save_def Let_def)
  have n: "\<not> badges (job_event job_nobadges)"
    by (simp add: job_nobadges_def)
  from job_pre_save_badge_defaults [of job_a "[1, 2]" 2] v
  have 1: "save_times 3 (job_a, [1, 2]) = (job_a\<lparr>badge_defaults := Some 3\<rparr>, [1, 2, 3])"
    by (simp add: numeral_3_eq_3)
  from job_pre_save_badge_defaults [of "job_a\<lparr>badge_defaults := Some 3\<rparr>" "[1, 2, 3]" 0]
  have 2: "job_pre_save (job_a\<lparr>badge_defaults := Some 3\<rparr>) [1, 2, 3]
       = (job_a\<lparr>badge_defaults := Some 3\<rparr>, [1, 2, 3])"
    by simp
  from job_pre_save_badge_defaults [of job_nobadges "[1, 2]" 3] n
  have 3: "save_times 3 (job_nobadges, [1, 2]) = (job_nobadges, [1, 2])"
    by blast
  from a v n 1 2 3 show ?thesis by blast
qed

section \<open>Properties of the view \<open>form\<close>\<close>

lemma find_world_a_fest: "get_object_or_404_Event world_a ''fest'' = Inr event_a"
  by (simp add: get_object_or_404_Event_def world_a_def event_a_def)

lemma find_world_a_old: "get_object_or_404_Event world_a ''old'' = Inr event_closed"
  by (simp add: get_object_or_404_Event_def world_a_def event_a_def event_closed_def)

lemma resolve_link_None_iff:
  "resolve_link env event link_pk = Inr (None, s) \<longleftrightarrow>
     (link_pk = None \<or> link_pk = Some []) \<and> s = None"
  by (auto simp: resolve_link_def split: option.splits sum.splits)

lemma resolve_link_Some_iff:
  "resolve_link env event link_pk = Inr (Some l, s) \<longleftrightarrow>
     (\<exists>pk. link_pk = Some pk \<and> pk \<noteq> [] \<and> Link_objects_get env pk = Inr l
          \<and> link_event_id l = event_pk event \<and> s = Some (link_shifts l))"
  by (auto simp: resolve_link_def split: option.splits sum.splits)

text \<open>
  C4. For a request to \<open>form\<close> with a link identifier, once the event of the URL is
  resolved: when the lookup of the link fails because there is no such link or
  because the identifier is malformed, the view returns the "invalid link" page and
  raises nothing; when the link is found and its \<open>event\<close> is not the event of the
  URL, the view raises \<open>Http404\<close>. Neither changes the tables or the messages.
\<close>

theorem form_link_resolution:
  assumes "get_object_or_404_Event w event_url_name = Inr event"
    and "pk \<noteq> []"
  shows "(Link_objects_get env pk = Inl DoesNotExist \<or> Link_objects_get env pk = Inl ValueError \<longrightarrow>
            form env request event_url_name (Some pk) w
              = (Inr (Render ''registration/invalid_link.html'' [(''event'', CtxEvent event)]), w))
       \<and> (\<forall>l. Link_objects_get env pk = Inr l \<and> link_event_id l \<noteq> event_pk event \<longrightarrow>
            form env request event_url_name (Some pk) w = (Inl Http404, w))"
  using assms by (auto simp: form_def resolve_link_def)

theorem form_link_resolution_witness:
  "get_object_or_404_Event world_a ''fest'' = Inr event_a
   \<and> Link_objects_get (env_a None) ''nope'' = Inl DoesNotExist
   \<and> form (env_a None) (request_post user_anonymous) ''fest'' (Some ''nope'') world_a
       = (Inr (Render ''registration/invalid_link.html'' [(''event'', CtxEvent event_a)]), world_a)
   \<and> Link_objects_get (env_a None) ''%'' = Inl ValueError
   \<and> form (env_a None) (request_post user_anonymous) ''fest'' (Some ''%'') world_a
       = (Inr (Render ''registration/invalid_link.html'' [(''event'', CtxEvent event_a)]), world_a)
   \<and> Link_objects_get (env_a None) ''xyz'' = Inr link_other
   \<and> link_event_id link_other \<noteq> event_pk event_a
   \<and> form (env_a None) (request_post user_anonymous) ''fest'' (Some ''xyz'') world_a
       = (Inl Http404, world_a)"
proof -
  have a: "Link_objects_get (env_a None) ''nope'' = Inl DoesNotExist"
    by (simp add: env_a_def)
  have b: "Link_objects_get (env_a None) ''%'' = Inl ValueError"
    by (simp add: env_a_def)
  have c: "Link_objects_get (env_a None) ''xyz'' = Inr link_other"
    by (simp add: env_a_def)
  have d: "link_event_id link_other \<noteq> event_pk event_a"
    by (simp add: link_other_def event_a_def)
  have 1: "form (env_a None) (request_post user_anonymous) ''fest'' (Some ''nope'') world_a
       = (Inr (Render ''registration/invalid_link.html'' [(''event'', CtxEvent event_a)]), world_a)"
    using form_link_resolution [OF find_world_a_fest, of "''nope''" "env_a None"] a by simp
  have 2: "form (env_a None) (request_post user_anonymous) ''fest'' (Some ''%'') world_a
       = (Inr (Render ''registration/invalid_link.html'' [(''event'', CtxEvent event_a)]), world_a)"
    using form_link_resolution [OF find_world_a_fest, of "''%''" "env_a None"] b by simp
  have 3: "form (env_a None) (request_post user_anonymous) ''fest'' (Some ''xyz'') world_a
       = (Inl Http404, world_a)"
    using form_link_resolution [OF find_world_a_fest, of "''xyz''" "env_a None"] c d by simp
  from find_world_a_fest a b c d 1 2 3 show ?thesis by blast
qed

text \<open>
  C3 (as amended). For a request to \<open>form\<close> that reaches the permission check (the
  event is resolved and the link block did not end the request, with \<open>l\<close> the link
  it found): when the event is not active and no link identifier was supplied, a
  requester who is not authenticated gets the "not active" page, and an
  authenticated requester who is not involved in the event gets the "no
  permission" page; when the event is active or a valid link was supplied, the
  view goes on to the form handling, whoever the requester is. At this point
  there is no link exactly when the request gave no identifier, and a link is a
  link that the lookup found for the identifier and that belongs to the event.
\<close>

theorem form_permission_gate:
  assumes "get_object_or_404_Event w event_url_name = Inr event"
    and "resolve_link env event link_pk = Inr (l, all_shifts)"
  shows "(\<not> active event \<and> l = None \<and> \<not> is_authenticated (request_user request) \<longrightarrow>
            form env request event_url_name link_pk w
              = (Inr (Render ''registration/not_active.html'' [(''event'', CtxEvent event)]), w))
       \<and> (\<not> active event \<and> l = None \<and> is_authenticated (request_user request)
            \<and> \<not> is_involved env event (request_user request) \<longrightarrow>
            form env request event_url_name link_pk w = (Inr NoPermission, w))
       \<and> (active event \<or> l \<noteq> None \<longrightarrow>
            form env request event_url_name link_pk w
              = handle_form env request event l all_shifts w)
       \<and> (l = None \<longleftrightarrow> link_pk = None \<or> link_pk = Some [])
       \<and> (\<forall>l'. l = Some l' \<longrightarrow>
            (\<exists>pk. link_pk = Some pk \<and> pk \<noteq> [] \<and> Link_objects_get env pk = Inr l'
                \<and> link_event_id l' = event_pk event \<and> all_shifts = Some (link_shifts l')))"
proof -
  have n: "l = None \<longleftrightarrow> link_pk = None \<or> link_pk = Some []"
    using assms(2) by (auto simp: resolve_link_def split: option.splits sum.splits if_splits)
  have v: "\<exists>pk. link_pk = Some pk \<and> pk \<noteq> [] \<and> Link_objects_get env pk = Inr l'
                \<and> link_event_id l' = event_pk event \<and> all_shifts = Some (link_shifts l')"
    if "l = Some l'" for l'
    using assms(2) that by (simp add: resolve_link_Some_iff)
  have f: "form env request event_url_name link_pk w =
      (case check_permission env request event l of
         Some r \<Rightarrow> (Inr r, w)
       | None \<Rightarrow> handle_form env request event l all_shifts w)"
    using assms by (simp add: form_def)
  have g: "(\<not> active event \<and> l = None \<and> \<not> is_authenticated (request_user request) \<longrightarrow>
            (case check_permission env request event l of
               Some r \<Rightarrow> (Inr r, w)
             | None \<Rightarrow> handle_form env request event l all_shifts w)
              = (Inr (Render ''registration/not_active.html'' [(''event'', CtxEvent event)]), w))
       \<and> (\<not> active event \<and> l = None \<and> is_authenticated (request_user request)
            \<and> \<not> is_involved env event (request_user request) \<longrightarrow>
            (case check_permission env request event l of
               Some r \<Rightarrow> (Inr r, w)
             | None \<Rightarrow> handle_form env request event l all_shifts w) = (Inr NoPermission, w))
       \<and> (active event \<or> l \<noteq> None \<longrightarrow>
            (case check_permission env request event l of
               Some r \<Rightarrow> (Inr r, w)
             | None \<Rightarrow> handle_form env request event l all_shifts w)
              = handle_form env request event l all_shifts w)"
    by (auto simp: check_permission_def nopermission_def)
  show ?thesis
    unfolding f using g n v by blast
qed

theorem form_permission_gate_witness:
  "get_object_or_404_Event world_a ''old'' = Inr event_closed
   \<and> resolve_link (env_a None) event_closed None = Inr (None, None)
   \<and> \<not> active event_closed
   \<and> \<not> is_authenticated (request_user (request_post user_anonymous))
   \<and> form (env_a None) (request_post user_anonymous) ''old'' None world_a
       = (Inr (Render ''registration/not_active.html'' [(''event'', CtxEvent event_closed)]), world_a)
   \<and> is_authenticated (request_user (request_post user_b))
   \<and> \<not> is_involved (env_a None) event_closed (request_user (request_post user_b))
   \<and> form (env_a None) (request_post user_b) ''old'' None world_a = (Inr NoPermission, world_a)
   \<and> get_object_or_404_Event world_a ''fest'' = Inr event_a
   \<and> active event_a
   \<and> form (env_a None) (request_post user_anonymous) ''fest'' None world_a
       = handle_form (env_a None) (request_post user_anonymous) event_a None None world_a
   \<and> resolve_link (env_a None) event_closed (Some ''xyz'') = Inr (Some link_other, Some [])
   \<and> form (env_a None) (request_post user_anonymous) ''old'' (Some ''xyz'') world_a
       = handle_form (env_a None) (request_post user_anonymous) event_closed (Some link_other)
           (Some []) world_a"
proof -
  have r: "resolve_link (env_a None) event_closed None = Inr (None, None)"
    "resolve_link (env_a None) event_a None = Inr (None, None)"
    by (simp_all add: resolve_link_def)
  have rv: "resolve_link (env_a None) event_closed (Some ''xyz'') = Inr (Some link_other, Some [])"
    by (simp add: resolve_link_def env_a_def link_other_def event_closed_def)
  have c: "\<not> active event_closed" "active event_a"
    by (simp_all add: event_closed_def event_a_def)
  have u: "\<not> is_authenticated (request_user (request_post user_anonymous))"
    "is_authenticated (request_user (request_post user_b))"
    "\<not> is_involved (env_a None) event_closed (request_user (request_post user_b))"
    by (simp_all add: request_post_def user_anonymous_def user_b_def env_a_def)
  from form_permission_gate [OF find_world_a_old r(1), of "request_post user_anonymous"] c u
  have 1: "form (env_a None) (request_post user_anonymous) ''old'' None world_a
       = (Inr (Render ''registration/not_active.html'' [(''event'', CtxEvent event_closed)]), world_a)"
    by blast
  from form_permission_gate [OF find_world_a_old r(1), of "request_post user_b"] c u
  have 2: "form (env_a None) (request_post user_b) ''old'' None world_a = (Inr NoPermission, world_a)"
    by blast
  from form_permission_gate [OF find_world_a_fest r(2), of "request_post user_anonymous"] c
  have 3: "form (env_a None) (request_post user_anonymous) ''fest'' None world_a
       = handle_form (env_a None) (request_post user_anonymous) event_a None None world_a"
    by blast
  from form_permission_gate [OF find_world_a_old rv, of "request_post user_anonymous"]
  have 4: "form (env_a None) (request_post user_anonymous) ''old'' (Some ''xyz'') world_a
       = handle_form (env_a None) (request_post user_anonymous) event_closed (Some link_other)
           (Some []) world_a"
    by blast
  from find_world_a_old find_world_a_fest r rv c u 1 2 3 4 show ?thesis by blast
qed

text \<open>
  C3 as stated fails for a request that supplies an identifier that is not a
  valid link: the event \<open>old\<close> is not active, the requester is not authenticated
  and there is no link \<open>nope\<close>, so no valid link was supplied, and the view
  returns the "invalid link" page, not the "not active" page.
\<close>

theorem form_invalid_link_counterexample:
  "\<not> active event_closed
   \<and> \<not> is_authenticated (request_user (request_post user_anonymous))
   \<and> Link_objects_get (env_a None) ''nope'' = Inl DoesNotExist
   \<and> form (env_a None) (request_post user_anonymous) ''old'' (Some ''nope'') world_a
       = (Inr (Render ''registration/invalid_link.html'' [(''event'', CtxEvent event_closed)]),
          world_a)
   \<and> form (env_a None) (request_post user_anonymous) ''old'' (Some ''nope'') world_a
       \<noteq> (Inr (Render ''registration/not_active.html'' [(''event'', CtxEvent event_closed)]),
          world_a)"
proof -
  have a: "\<not> active event_closed"
    "\<not> is_authenticated (request_user (request_post user_anonymous))"
    "Link_objects_get (env_a None) ''nope'' = Inl DoesNotExist"
    by (simp_all add: event_closed_def request_post_def user_anonymous_def env_a_def)
  have f: "form (env_a None) (request_post user_anonymous) ''old'' (Some ''nope'') world_a
       = (Inr (Render ''registration/invalid_link.html'' [(''event'', CtxEvent event_closed)]),
          world_a)"
    by (simp add: form_def find_world_a_old resolve_link_def a(3))
  from a f show ?thesis by simp
qed

lemma form_reaches_handle_form:
  assumes "get_object_or_404_Event w event_url_name = Inr event"
    and "resolve_link env event link_pk = Inr (l, all_shifts)"
    and "check_permission env request event l = None"
  shows "form env request event_url_name link_pk w = handle_form env request event l all_shifts w"
  using assms by (simp add: form_def)

text \<open>
  C2 (as amended). For a request to \<open>form\<close> that reaches the form handling with a
  valid form: when sending the confirmation mail raises an \<open>SMTPException\<close> (the
  one class of transport errors that the view catches), the view still
  returns the redirect to \<open>registered\<close> for the event and the new helper, the
  helper that was saved is still a row of the table, and an error message about
  the failed mail is recorded.
\<close>

theorem form_mail_failure_keeps_registration:
  assumes "get_object_or_404_Event w event_url_name = Inr event"
    and "resolve_link env event link_pk = Inr (l, all_shifts)"
    and "check_permission env request event l = None"
    and "form_is_valid env (RegisterForm request event all_shifts l)"
    and "h = form_new_helper env (RegisterForm request event all_shifts l) w"
    and "send_mail env h request = Some SMTPException"
  shows "fst (form env request event_url_name link_pk w)
           = Inr (HttpResponseRedirect (Reverse ''registered'' (url_name event) (helper_pk h)))
       \<and> helpers (snd (form env request event_url_name link_pk w)) = helpers w @ [h]
       \<and> h \<in> set (helpers (snd (form env request event_url_name link_pk w)))
       \<and> messages (snd (form env request event_url_name link_pk w))
           = messages w @ [(ERROR, ''Sending the mail failed, but the registration was saved.'')]
       \<and> events (snd (form env request event_url_name link_pk w)) = events w"
proof -
  have "form env request event_url_name link_pk w = handle_form env request event l all_shifts w"
    using assms(1-3) by (rule form_reaches_handle_form)
  also have "\<dots> = (Inr (registered_redirect event h),
      w\<lparr>helpers := helpers w @ [h],
        messages := messages w @
          [(ERROR, ''Sending the mail failed, but the registration was saved.'')]\<rparr>)"
    using assms(4-6) by (simp add: handle_form_def form_save_def Let_def)
  finally show ?thesis
    by (simp add: registered_redirect_def)
qed

text \<open>
  C10. For a request to \<open>form\<close> that reaches the form handling with a valid form:
  when sending the confirmation mail raises an exception that is not an
  \<open>SMTPException\<close>, this exception leaves the view; the helper is saved by then
  and stays a row of the table, and the view returns no redirect and records no
  message.
\<close>

theorem form_other_exception_propagates:
  assumes "get_object_or_404_Event w event_url_name = Inr event"
    and "resolve_link env event link_pk = Inr (l, all_shifts)"
    and "check_permission env request event l = None"
    and "form_is_valid env (RegisterForm request event all_shifts l)"
    and "h = form_new_helper env (RegisterForm request event all_shifts l) w"
    and "send_mail env h request = Some x"
    and "x \<noteq> SMTPException"
  shows "fst (form env request event_url_name link_pk w) = Inl x
       \<and> helpers (snd (form env request event_url_name link_pk w)) = helpers w @ [h]
       \<and> h \<in> set (helpers (snd (form env request event_url_name link_pk w)))
       \<and> messages (snd (form env request event_url_name link_pk w)) = messages w
       \<and> events (snd (form env request event_url_name link_pk w)) = events w"
proof -
  have "form env request event_url_name link_pk w = handle_form env request event l all_shifts w"
    using assms(1-3) by (rule form_reaches_handle_form)
  also have "\<dots> = (Inl x, w\<lparr>helpers := helpers w @ [h]\<rparr>)"
    using assms(4-7) by (simp add: handle_form_def form_save_def Let_def)
  finally show ?thesis
    by simp
qed

lemma example_reaches_form:
  "resolve_link (env_a mail) event_a None = Inr (None, None)"
  "check_permission (env_a mail) (request_post user_anonymous) event_a None = None"
  "form_is_valid (env_a mail) (RegisterForm (request_post user_anonymous) event_a None None)"
  "helper_new = form_new_helper (env_a mail)
     (RegisterForm (request_post user_anonymous) event_a None None) world_a"
  "send_mail (env_a mail) helper_new (request_post user_anonymous) = mail"
  by (simp_all add: resolve_link_def check_permission_def event_a_def env_a_def
      RegisterForm_def request_post_def)

text \<open>
  C2 as stated fails for a transport error that is not an \<open>SMTPException\<close>: when
  the connection to the mail server is refused, the helper is saved, but the view
  returns no redirect and records no message.
\<close>

theorem form_transport_error_counterexample:
  "send_mail (env_a (Some (OtherException ''ConnectionRefusedError''))) helper_new
       (request_post user_anonymous) = Some (OtherException ''ConnectionRefusedError'')
   \<and> fst (form (env_a (Some (OtherException ''ConnectionRefusedError'')))
         (request_post user_anonymous) ''fest'' None world_a)
       \<noteq> Inr (HttpResponseRedirect (Reverse ''registered'' ''fest'' 12))
   \<and> helpers (snd (form (env_a (Some (OtherException ''ConnectionRefusedError'')))
         (request_post user_anonymous) ''fest'' None world_a)) = [helper_old, helper_new]
   \<and> messages (snd (form (env_a (Some (OtherException ''ConnectionRefusedError'')))
         (request_post user_anonymous) ''fest'' None world_a)) = []"
proof -
  note e = example_reaches_form [of "Some (OtherException ''ConnectionRefusedError'')"]
  have "form (env_a (Some (OtherException ''ConnectionRefusedError'')))
          (request_post user_anonymous) ''fest'' None world_a
        = handle_form (env_a (Some (OtherException ''ConnectionRefusedError'')))
            (request_post user_anonymous) event_a None None world_a"
    using find_world_a_fest e(1) e(2) by (rule form_reaches_handle_form)
  also have "\<dots> = (Inl (OtherException ''ConnectionRefusedError''),
                    world_a\<lparr>helpers := helpers world_a @ [helper_new]\<rparr>)"
    using e(3) e(4) [symmetric] e(5) by (simp add: handle_form_def form_save_def Let_def)
  finally show ?thesis
    using e(5) by (simp add: world_a_def)
qed

theorem form_mail_failure_keeps_registration_witness:
  "get_object_or_404_Event world_a ''fest'' = Inr event_a
   \<and> send_mail (env_a (Some SMTPException)) helper_new (request_post user_anonymous)
       = Some SMTPException
   \<and> fst (form (env_a (Some SMTPException)) (request_post user_anonymous) ''fest'' None world_a)
       = Inr (HttpResponseRedirect (Reverse ''registered'' ''fest'' 12))
   \<and> helpers (snd (form (env_a (Some SMTPException)) (request_post user_anonymous) ''fest'' None
         world_a)) = [helper_old, helper_new]
   \<and> messages (snd (form (env_a (Some SMTPException)) (request_post user_anonymous) ''fest'' None
         world_a)) = [(ERROR, ''Sending the mail failed, but the registration was saved.'')]"
proof -
  note e = example_reaches_form [of "Some SMTPException"]
  from form_mail_failure_keeps_registration
    [OF find_world_a_fest e(1) e(2) e(3) e(4) e(5)]
  show ?thesis
    using find_world_a_fest e(5)
    by (simp add: event_a_def helper_new_def world_a_def)
qed

theorem form_other_exception_propagates_witness:
  "get_object_or_404_Event world_a ''fest'' = Inr event_a
   \<and> send_mail (env_a (Some (OtherException ''ConnectionRefusedError''))) helper_new
         (request_post user_anonymous) = Some (OtherException ''ConnectionRefusedError'')
   \<and> fst (form (env_a (Some (OtherException ''ConnectionRefusedError'')))
         (request_post user_anonymous) ''fest'' None world_a)
       = Inl (OtherException ''ConnectionRefusedError'')
   \<and> helpers (snd (form (env_a (Some (OtherException ''ConnectionRefusedError'')))
         (request_post user_anonymous) ''fest'' None world_a)) = [helper_old, helper_new]
   \<and> messages (snd (form (env_a (Some (OtherException ''ConnectionRefusedError'')))
         (request_post user_anonymous) ''fest'' None world_a)) = []"
proof -
  note e = example_reaches_form [of "Some (OtherException ''ConnectionRefusedError'')"]
  have n: "OtherException ''ConnectionRefusedError'' \<noteq> SMTPException"
    by simp
  from form_other_exception_propagates
    [OF find_world_a_fest e(1) e(2) e(3) e(4) e(5) n]
  show ?thesis
    using find_world_a_fest e(5)
    by (simp add: world_a_def)
qed

section \<open>Properties of the view \<open>validate\<close>\<close>

lemma find_pk_in_set:
  "find (\<lambda>r. helper_pk r = hid) hs = Some h \<Longrightarrow> helper_pk h = hid \<and> h \<in> set hs"
  by (induction hs) (auto split: if_splits)

lemma find_pk_after_update:
  "find (\<lambda>r. helper_pk r = hid) hs = Some h \<Longrightarrow> helper_pk h' = hid \<Longrightarrow>
   find (\<lambda>r. helper_pk r = hid) (map (\<lambda>r. if helper_pk r = hid then h' else r) hs) = Some h'"
  by (induction hs) (auto split: if_splits)

lemma get_or_404_Inr:
  "get_or_404 env w n hid = Inr (event, h) \<longleftrightarrow>
     get_object_or_404_Event w n = Inr event
   \<and> find (\<lambda>r. helper_pk r = hid) (helpers w) = Some h
   \<and> helper_in_event env event hid"
  by (auto simp: get_or_404_def split: sum.splits option.splits)

lemma Helper_save_existing:
  "find (\<lambda>r. helper_pk r = hid) (helpers w) = Some h \<Longrightarrow> helper_pk h' = hid \<Longrightarrow>
   Helper_save h' w = w\<lparr>helpers := map (\<lambda>r. if helper_pk r = hid then h' else r) (helpers w)\<rparr>"
proof -
  assume f: "find (\<lambda>r. helper_pk r = hid) (helpers w) = Some h" and p: "helper_pk h' = hid"
  from f have "helper_pk h = hid \<and> h \<in> set (helpers w)"
    by (rule find_pk_in_set)
  then have "hid \<in> set (map helper_pk (helpers w))"
    by force
  then show ?thesis
    using p by (simp add: Helper_save_def)
qed

lemma validate_step:
  assumes "get_or_404 env w n hid = Inr (event, h)"
    and "mail_validation event"
  shows "validate env request n hid w =
     (Inr (Render ''registration/validate.html''
             [(''event'', CtxEvent event), (''already_validated'', CtxBool (validated h))]),
      w\<lparr>helpers := map (\<lambda>r. if helper_pk r = hid then h\<lparr>validated := True\<rparr> else r)
                       (helpers w)\<rparr>)"
proof -
  from assms(1) have f: "find (\<lambda>r. helper_pk r = hid) (helpers w) = Some h"
    by (simp add: get_or_404_Inr)
  then have pk: "helper_pk (h\<lparr>validated := True\<rparr>) = hid"
    by (auto dest: find_pk_in_set)
  show ?thesis
    using assms by (simp add: validate_def Let_def Helper_save_existing [OF f pk])
qed

lemma get_or_404_after_validate:
  assumes "get_or_404 env w n hid = Inr (event, h)"
  shows "get_or_404 env
           (w\<lparr>helpers := map (\<lambda>r. if helper_pk r = hid then h\<lparr>validated := True\<rparr> else r)
                            (helpers w)\<rparr>) n hid
         = Inr (event, h\<lparr>validated := True\<rparr>)"
proof -
  from assms have f: "find (\<lambda>r. helper_pk r = hid) (helpers w) = Some h"
    and e: "get_object_or_404_Event w n = Inr event"
    and i: "helper_in_event env event hid"
    by (simp_all add: get_or_404_Inr)
  from f have pk: "helper_pk (h\<lparr>validated := True\<rparr>) = hid"
    by (auto dest: find_pk_in_set)
  have e': "get_object_or_404_Event
              (w\<lparr>helpers := map (\<lambda>r. if helper_pk r = hid then h\<lparr>validated := True\<rparr> else r)
                            (helpers w)\<rparr>) n = Inr event"
    using e by (simp add: get_object_or_404_Event_def)
  show ?thesis
    unfolding get_or_404_Inr
    using e' i find_pk_after_update [OF f pk] by simp
qed

lemma map_update_twice:
  "map (\<lambda>r. if helper_pk r = hid then h' else r) (map (\<lambda>r. if helper_pk r = hid then h' else r) hs)
     = map (\<lambda>r. if helper_pk r = hid then h' else r) hs"
  by (induction hs) auto

text \<open>
  C6. For a helper that \<open>get_or_404\<close> finds under the event: when the event does not
  use mail validation, \<open>validate\<close> raises \<open>Http404\<close> and changes nothing. When it
  does, \<open>validate\<close> reports whether the helper was validated before, sets the flag
  and saves the helper: the row of this helper has the flag set, every other row,
  the events and the messages are as before. A second call finds the helper with
  the flag set, reports it as already validated and leaves the state as the first
  call left it.
\<close>

theorem validate_sets_validated:
  assumes "get_or_404 env w event_url_name helper_id = Inr (event, h)"
    and "w1 = snd (validate env request event_url_name helper_id w)"
  shows "(\<not> mail_validation event \<longrightarrow>
            validate env request event_url_name helper_id w = (Inl Http404, w))
       \<and> (mail_validation event \<longrightarrow>
            fst (validate env request event_url_name helper_id w)
              = Inr (Render ''registration/validate.html''
                       [(''event'', CtxEvent event),
                        (''already_validated'', CtxBool (validated h))])
          \<and> get_or_404 env w1 event_url_name helper_id = Inr (event, h\<lparr>validated := True\<rparr>)
          \<and> helpers w1 = map (\<lambda>r. if helper_pk r = helper_id then h\<lparr>validated := True\<rparr> else r)
                              (helpers w)
          \<and> events w1 = events w \<and> messages w1 = messages w
          \<and> validate env request event_url_name helper_id w1
              = (Inr (Render ''registration/validate.html''
                        [(''event'', CtxEvent event), (''already_validated'', CtxBool True)]),
                 w1))"
proof -
  let ?w' = "w\<lparr>helpers := map (\<lambda>r. if helper_pk r = helper_id then h\<lparr>validated := True\<rparr> else r)
                            (helpers w)\<rparr>"
  have off: "validate env request event_url_name helper_id w = (Inl Http404, w)"
    if "\<not> mail_validation event"
    using assms(1) that by (simp add: validate_def)
  have on: ?thesis if m: "mail_validation event"
  proof -
    have v1: "validate env request event_url_name helper_id w =
       (Inr (Render ''registration/validate.html''
               [(''event'', CtxEvent event), (''already_validated'', CtxBool (validated h))]), ?w')"
      using assms(1) m by (rule validate_step)
    then have w1: "w1 = ?w'"
      using assms(2) by simp
    have g: "get_or_404 env ?w' event_url_name helper_id = Inr (event, h\<lparr>validated := True\<rparr>)"
      using assms(1) by (rule get_or_404_after_validate)
    have v2: "validate env request event_url_name helper_id ?w' =
       (Inr (Render ''registration/validate.html''
               [(''event'', CtxEvent event), (''already_validated'', CtxBool True)]), ?w')"
      using validate_step [OF g m, of request] by (simp add: map_update_twice)
    show ?thesis
      using m v1 v2 g unfolding w1 by simp
  qed
  from off on show ?thesis by blast
qed

lemma example_get_or_404:
  "get_or_404 (env_a None) world_a ''fest'' 7 = Inr (event_a, helper_old)"
  "get_or_404 (env_a None) world_a ''old'' 7 = Inr (event_closed, helper_old)"
  by (simp_all add: get_or_404_def get_object_or_404_Event_def world_a_def event_a_def
      event_closed_def helper_old_def env_a_def)

theorem validate_sets_validated_witness:
  "get_or_404 (env_a None) world_a ''fest'' 7 = Inr (event_a, helper_old)
   \<and> mail_validation event_a
   \<and> fst (validate (env_a None) (request_post user_anonymous) ''fest'' 7 world_a)
       = Inr (Render ''registration/validate.html''
                [(''event'', CtxEvent event_a), (''already_validated'', CtxBool False)])
   \<and> helpers (snd (validate (env_a None) (request_post user_anonymous) ''fest'' 7 world_a))
       = [helper_old\<lparr>validated := True\<rparr>]
   \<and> validate (env_a None) (request_post user_anonymous) ''fest'' 7
         (snd (validate (env_a None) (request_post user_anonymous) ''fest'' 7 world_a))
       = (Inr (Render ''registration/validate.html''
                 [(''event'', CtxEvent event_a), (''already_validated'', CtxBool True)]),
          snd (validate (env_a None) (request_post user_anonymous) ''fest'' 7 world_a))
   \<and> get_or_404 (env_a None) world_a ''old'' 7 = Inr (event_closed, helper_old)
   \<and> \<not> mail_validation event_closed
   \<and> validate (env_a None) (request_post user_anonymous) ''old'' 7 world_a
       = (Inl Http404, world_a)"
proof -
  have m: "mail_validation event_a" "\<not> mail_validation event_closed"
    by (simp_all add: event_a_def event_closed_def)
  have v: "validated helper_old = False" "helper_pk helper_old = 7"
    "helpers world_a = [helper_old]"
    by (simp_all add: helper_old_def world_a_def)
  from validate_sets_validated [OF example_get_or_404(1) refl, of "request_post user_anonymous"] m v
  have 1: "fst (validate (env_a None) (request_post user_anonymous) ''fest'' 7 world_a)
       = Inr (Render ''registration/validate.html''
                [(''event'', CtxEvent event_a), (''already_validated'', CtxBool False)])"
    and 2: "helpers (snd (validate (env_a None) (request_post user_anonymous) ''fest'' 7 world_a))
       = [helper_old\<lparr>validated := True\<rparr>]"
    and 3: "validate (env_a None) (request_post user_anonymous) ''fest'' 7
         (snd (validate (env_a None) (request_post user_anonymous) ''fest'' 7 world_a))
       = (Inr (Render ''registration/validate.html''
                 [(''event'', CtxEvent event_a), (''already_validated'', CtxBool True)]),
          snd (validate (env_a None) (request_post user_anonymous) ''fest'' 7 world_a))"
    by simp_all
  from validate_sets_validated [OF example_get_or_404(2) refl, of "request_post user_anonymous"] m
  have 4: "validate (env_a None) (request_post user_anonymous) ''old'' 7 world_a
       = (Inl Http404, world_a)"
    by blast
  from example_get_or_404 m 1 2 3 4 show ?thesis by blast
qed

end
